theory Spec2Isabelle
  imports Complex_Main "HOL-Library.Word" "HOL-Library.Log_Nat"
begin

section \<open>The notebook and the library calls it makes\<close>

text \<open>
  The repository is one Jupyter notebook, \<^verbatim>\<open>ImageClassification-Copy1.ipynb\<close>. Its code
  cells are straight-line Python: every statement is a call into NumPy or Keras. The
  notebook is modelled as the list of its statements, in cell order, and each statement as
  a transformer of the interpreter's namespace that either returns the new namespace or
  the exception it raises. The array operations (\<^verbatim>\<open>reshape\<close>, \<^verbatim>\<open>astype('float32') / 255\<close>,
  \<^verbatim>\<open>to_categorical\<close>) are modelled down to the values they compute; what the framework does
  inside \<^verbatim>\<open>fit\<close> and \<^verbatim>\<open>evaluate\<close> (gradient descent on binary32 numbers from a random
  start) is outside the notebook and is kept opaque.
\<close>

subsection \<open>Exceptions\<close>

datatype error = ImportError | NameError | ValueError | IndexError | TypeError | RuntimeError

subsection \<open>NumPy arrays\<close>

text \<open>
  An \<^verbatim>\<open>ndarray\<close> is its shape and its elements in row-major (C) order, which is the
  order \<^verbatim>\<open>ndarray.flat\<close> iterates in. \<^verbatim>\<open>a.size\<close> is the product of the shape.
\<close>

record 'a ndarray =
  shape :: "nat list"
  flat :: "'a list"

definition nd_size :: "'a ndarray \<Rightarrow> nat" where
  "nd_size a = prod_list (shape a)"

definition wf_array :: "'a ndarray \<Rightarrow> bool" where
  "wf_array a \<longleftrightarrow> length (flat a) = nd_size a"

text \<open>
  \<^verbatim>\<open>a.reshape(newshape)\<close>: the same elements in the same order under a new shape;
  \<^verbatim>\<open>ValueError: cannot reshape array of size ... into shape ...\<close> when the sizes differ.
  (The notebook passes explicit dimensions, never the wildcard \<^verbatim>\<open>-1\<close>.)
\<close>

definition reshape :: "'a ndarray \<Rightarrow> nat list \<Rightarrow> error + 'a ndarray" where
  "reshape a newshape =
     (if prod_list newshape = nd_size a then Inr (a\<lparr>shape := newshape\<rparr>) else Inl ValueError)"

text \<open>
  Row-major offset of a full multi-index: \<^verbatim>\<open>a[i, r, c]\<close> of an array of shape
  \<^verbatim>\<open>(n, 28, 28)\<close> is element \<^verbatim>\<open>(i * 28 + r) * 28 + c\<close> of \<^verbatim>\<open>a.flat\<close>. An index outside the
  shape, or of the wrong rank, has no offset.
\<close>

fun ravel_index :: "nat list \<Rightarrow> nat list \<Rightarrow> nat option" where
  "ravel_index [] [] = Some 0"
| "ravel_index (d # ds) (i # is) =
     (if i < d then map_option (\<lambda>k. i * prod_list ds + k) (ravel_index ds is) else None)"
| "ravel_index _ _ = None"

definition item :: "'a ndarray \<Rightarrow> nat list \<Rightarrow> error + 'a" where
  "item a idx =
     (case ravel_index (shape a) idx of
        None \<Rightarrow> Inl IndexError
      | Some k \<Rightarrow> if k < length (flat a) then Inr (flat a ! k) else Inl IndexError)"

subsection \<open>binary32 arithmetic\<close>

text \<open>
  Every finite \<^verbatim>\<open>float32\<close> value is a rational number, so float arrays hold \<^typ>\<open>rat\<close>.
  \<open>float32 x\<close> is the binary32 number nearest to \<open>x\<close>, ties to even: 24 significant bits,
  least normal exponent \<open>-126\<close>. IEEE 754 division returns the correctly rounded quotient,
  so \<^verbatim>\<open>x / 255\<close> on a \<^verbatim>\<open>float32\<close> array computes \<open>float32 (x / 255)\<close> elementwise. Overflow
  to infinity is not modelled: the values of the notebook's arrays stay below \<open>2 ^ 128\<close>.
\<close>

definition round_half_even :: "rat \<Rightarrow> int" where
  "round_half_even x =
     (let f = \<lfloor>x\<rfloor>; d = x - of_int f
      in if d < 1 / 2 then f else if 1 / 2 < d then f + 1 else if even f then f else f + 1)"

text \<open>\<open>ilog2 x\<close> is the binary exponent of a positive \<open>x\<close>: \<open>2 ^ ilog2 x \<le> x < 2 ^ (ilog2 x + 1)\<close>.\<close>

definition ilog2 :: "rat \<Rightarrow> int" where
  "ilog2 x =
     (let (a, b) = quotient_of x;
          d = int (floorlog 2 (nat a)) - int (floorlog 2 (nat b))
      in if 2 powi d \<le> x then d else d - 1)"

definition float32 :: "rat \<Rightarrow> rat" where
  "float32 x =
     (if x = 0 then 0
      else let e = max (ilog2 \<bar>x\<bar>) (- 126); q = 2 powi (23 - e)
           in sgn x * of_int (round_half_even (\<bar>x\<bar> * q)) / q)"

text \<open>
  \<^verbatim>\<open>a.astype('float32')\<close> converts every element to binary32 (a \<^verbatim>\<open>uint8\<close> element through
  its value \<open>0 .. 255\<close>); \<^verbatim>\<open>a / c\<close> on a \<^verbatim>\<open>float32\<close> array and a Python number divides in
  binary32.
\<close>

definition astype_float32_u8 :: "8 word ndarray \<Rightarrow> rat ndarray" where
  "astype_float32_u8 a = \<lparr>shape = shape a, flat = map (\<lambda>w. float32 (of_nat (unat w))) (flat a)\<rparr>"

definition astype_float32 :: "rat ndarray \<Rightarrow> rat ndarray" where
  "astype_float32 a = \<lparr>shape = shape a, flat = map float32 (flat a)\<rparr>"

definition true_divide :: "rat ndarray \<Rightarrow> rat \<Rightarrow> rat ndarray" where
  "true_divide a c = \<lparr>shape = shape a, flat = map (\<lambda>x. float32 (x / float32 c)) (flat a)\<rparr>"

subsection \<open>One-hot encoding\<close>

text \<open>
  \<^verbatim>\<open>keras.utils.to_categorical(y, num_classes=None)\<close>. The notebook passes the label array
  alone, so the number of classes is not given: the library takes it from the data,
  \<^verbatim>\<open>
  y = np.array(y, dtype='int')
  input_shape = y.shape
  if input_shape and input_shape[-1] == 1 and len(input_shape) > 1:
      input_shape = tuple(input_shape[:-1])
  y = y.ravel()
  if not num_classes:
      num_classes = np.max(y) + 1
  n = y.shape[0]
  categorical = np.zeros((n, num_classes))
  categorical[np.arange(n), y] = 1
  output_shape = input_shape + (num_classes,)
  categorical = np.reshape(categorical, output_shape)
  \<close>
  \<^verbatim>\<open>np.max\<close> of an empty array raises \<^verbatim>\<open>ValueError\<close>, \<^verbatim>\<open>np.zeros\<close> of a negative dimension
  raises \<^verbatim>\<open>ValueError\<close>, a negative label indexes its row from the end and raises
  \<^verbatim>\<open>IndexError\<close> when it is out of bounds.
\<close>

definition one_hot :: "nat \<Rightarrow> nat \<Rightarrow> rat list" where
  "one_hot num_classes k = map (\<lambda>j. if j = k then 1 else 0) [0..<num_classes]"

definition to_categorical :: "int ndarray \<Rightarrow> error + rat ndarray" where
  "to_categorical y =
     (let input_shape =
            (if shape y \<noteq> [] \<and> last (shape y) = 1 \<and> 1 < length (shape y)
             then butlast (shape y) else shape y)
      in if flat y = [] then Inl ValueError
         else let num_classes = Max (set (flat y)) + 1
              in if num_classes < 0 then Inl ValueError
                 else if list_ex (\<lambda>l. l < - num_classes) (flat y) then Inl IndexError
                 else Inr \<lparr>shape = input_shape @ [nat num_classes],
                           flat = concat (map (\<lambda>l. one_hot (nat num_classes)
                                    (nat (if l < 0 then l + num_classes else l))) (flat y))\<rparr>)"

subsection \<open>Values bound to the notebook's array names\<close>

text \<open>
  Python rebinds \<^verbatim>\<open>train_images\<close> from a \<^verbatim>\<open>uint8\<close> array to a \<^verbatim>\<open>float32\<close> one, and the
  label names from \<^verbatim>\<open>uint8\<close> to \<^verbatim>\<open>float64\<close>: a name holds an array of either kind.
\<close>

datatype dtype = Float32 | Float64

datatype pyval = U8 "8 word ndarray" | Fl dtype "rat ndarray"

fun pv_shape :: "pyval \<Rightarrow> nat list" where
  "pv_shape (U8 a) = shape a"
| "pv_shape (Fl t a) = shape a"

fun pv_reshape :: "nat list \<Rightarrow> pyval \<Rightarrow> error + pyval" where
  "pv_reshape newshape (U8 a) = map_sum id U8 (reshape a newshape)"
| "pv_reshape newshape (Fl t a) = map_sum id (Fl t) (reshape a newshape)"

text \<open>\<^verbatim>\<open>v.astype('float32') / 255\<close>\<close>

fun pv_astype_divide :: "pyval \<Rightarrow> error + pyval" where
  "pv_astype_divide (U8 a) = Inr (Fl Float32 (true_divide (astype_float32_u8 a) 255))"
| "pv_astype_divide (Fl t a) = Inr (Fl Float32 (true_divide (astype_float32 a) 255))"

text \<open>\<^verbatim>\<open>np.array(y, dtype='int')\<close> keeps an integer and truncates a float towards zero.\<close>

definition trunc :: "rat \<Rightarrow> int" where
  "trunc x = (if 0 \<le> x then \<lfloor>x\<rfloor> else \<lceil>x\<rceil>)"

fun as_int_array :: "pyval \<Rightarrow> int ndarray" where
  "as_int_array (U8 a) = \<lparr>shape = shape a, flat = map uint (flat a)\<rparr>"
| "as_int_array (Fl t a) = \<lparr>shape = shape a, flat = map trunc (flat a)\<rparr>"

definition pv_to_categorical :: "pyval \<Rightarrow> error + pyval" where
  "pv_to_categorical v = map_sum id (Fl Float64) (to_categorical (as_int_array v))"

subsection \<open>The Keras model\<close>

datatype activation = relu | softmax

record dense =
  units :: nat
  activation :: activation
  input_shape :: "nat list option"

text \<open>
  A \<^verbatim>\<open>Sequential\<close> model: its layers in the order they were added, and the arguments of
  \<^verbatim>\<open>compile\<close> (optimizer, loss, metrics) once it has been compiled.
\<close>

record model =
  layers :: "dense list"
  compiled :: "(string \<times> string \<times> string list) option"
  epochs_fitted :: nat

definition Sequential_new :: model where
  "Sequential_new = \<lparr>layers = [], compiled = None, epochs_fitted = 0\<rparr>"

text \<open>
  \<^verbatim>\<open>model.add(layer)\<close> appends the layer. In the Keras 2.1 of the notebook the first layer
  of a \<^verbatim>\<open>Sequential\<close> must say its input shape (\<^verbatim>\<open>ValueError\<close> otherwise).
\<close>

definition add :: "model \<Rightarrow> dense \<Rightarrow> error + model" where
  "add m l =
     (if layers m = [] \<and> input_shape l = None then Inl ValueError
      else Inr (m\<lparr>layers := layers m @ [l]\<rparr>))"

text \<open>\<^verbatim>\<open>model.compile(optimizer, loss, metrics)\<close>; an empty model cannot be built (\<^verbatim>\<open>TypeError\<close>).\<close>

definition compile :: "model \<Rightarrow> string \<Rightarrow> string \<Rightarrow> string list \<Rightarrow> error + model" where
  "compile m optimizer loss metrics =
     (if layers m = [] then Inl TypeError
      else Inr (m\<lparr>compiled := Some (optimizer, loss, metrics)\<rparr>))"

text \<open>
  What \<^verbatim>\<open>fit\<close> and \<^verbatim>\<open>evaluate\<close> check before they touch the data: the model is compiled
  (\<^verbatim>\<open>RuntimeError: You must compile a model before training/testing\<close>), the inputs have
  the shape \<^verbatim>\<open>(n,) + input_shape\<close> of the first layer, the targets the shape
  \<^verbatim>\<open>(m, units)\<close> of the last layer, and \<open>n = m\<close> (\<^verbatim>\<open>ValueError\<close> for each).
\<close>

definition check_data :: "model \<Rightarrow> pyval \<Rightarrow> pyval \<Rightarrow> error + unit" where
  "check_data m x y =
     (if compiled m = None \<or> layers m = [] then Inl RuntimeError
      else case pv_shape x of
             [] \<Rightarrow> Inl ValueError
           | n # dims \<Rightarrow>
               if input_shape (hd (layers m)) \<noteq> Some dims then Inl ValueError
               else if pv_shape y \<noteq> [n, units (last (layers m))] then Inl ValueError
               else Inr ())"

subsection \<open>The forward pass of the layers\<close>

text \<open>
  \<^verbatim>\<open>Dense(units, activation)\<close> computes \<^verbatim>\<open>activation(dot(input, kernel) + bias)\<close> with a
  kernel of shape \<^verbatim>\<open>(input_dim, units)\<close> and a bias of shape \<^verbatim>\<open>(units,)\<close>, both created and
  trained by the framework. The activations are modelled as the real functions they
  approximate; the weights are read at the indices inside their shapes only. These
  definitions say which functions the layers compose and in which order. The binary32
  numbers that the framework's own kernels compute for them (matrix product, exponential,
  reduction, division, each with its rounding) are not modelled.
\<close>

record weights =
  kernel :: "nat \<Rightarrow> nat \<Rightarrow> real"
  bias :: "nat \<Rightarrow> real"

definition relu_fn :: "real list \<Rightarrow> real list" where
  "relu_fn xs = map (max 0) xs"

definition softmax_fn :: "real list \<Rightarrow> real list" where
  "softmax_fn xs = map (\<lambda>x. exp x / sum_list (map exp xs)) xs"

fun apply_activation :: "activation \<Rightarrow> real list \<Rightarrow> real list" where
  "apply_activation relu xs = relu_fn xs"
| "apply_activation softmax xs = softmax_fn xs"

definition dense_call :: "dense \<Rightarrow> weights \<Rightarrow> real list \<Rightarrow> real list" where
  "dense_call l w x =
     apply_activation (activation l)
       (map (\<lambda>j. (\<Sum>i<length x. x ! i * kernel w i j) + bias w j) [0..<units l])"

text \<open>The layers are applied in the order of the list; layer \<open>k\<close> uses the weights \<open>ws k\<close>.\<close>

fun forward :: "nat \<Rightarrow> dense list \<Rightarrow> (nat \<Rightarrow> weights) \<Rightarrow> real list \<Rightarrow> real list" where
  "forward k [] ws x = x"
| "forward k (l # ls) ws x = forward (Suc k) ls ws (dense_call l (ws k) x)"

subsection \<open>Statements and the namespace\<close>

datatype var = train_images | train_labels | test_images | test_labels

datatype stmt =
    Import string
  | Keras_version
  | Load_data
  | Shape var
  | Len var
  | Display var
  | Sequential
  | Add dense
  | Compile string string "string list"
  | Reshape var "nat list"
  | Astype_divide var
  | To_categorical var
  | Fit var var nat nat
  | Evaluate var var
  | Print_test_acc

text \<open>
  What the notebook cannot decide: whether Keras is installed, the four arrays the
  dataset loader returns, and the loss and accuracy the framework measures on the test
  set after training.
\<close>

record env =
  keras_installed :: bool
  mnist :: "(8 word ndarray \<times> 8 word ndarray) \<times> (8 word ndarray \<times> 8 word ndarray)"
  measured :: "rat \<times> rat"

record state =
  modules :: "string list"
  arrays :: "var \<Rightarrow> pyval option"
  network :: "model option"
  test_metrics :: "(rat \<times> rat) option"
  stdout :: "rat list"
  executed :: "stmt list"

definition init :: state where
  "init = \<lparr>modules = [], arrays = (\<lambda>v. None), network = None, test_metrics = None,
           stdout = [], executed = []\<rparr>"

definition rebind :: "var \<Rightarrow> (pyval \<Rightarrow> error + pyval) \<Rightarrow> state \<Rightarrow> error + state" where
  "rebind v f s =
     (case arrays s v of
        None \<Rightarrow> Inl NameError
      | Some a \<Rightarrow> (case f a of
                    Inl e \<Rightarrow> Inl e
                  | Inr b \<Rightarrow> Inr (s\<lparr>arrays := (arrays s)(v \<mapsto> b)\<rparr>)))"

definition read_var :: "var \<Rightarrow> state \<Rightarrow> error + state" where
  "read_var v s = (case arrays s v of None \<Rightarrow> Inl NameError | Some a \<Rightarrow> Inr s)"

definition with_network :: "(model \<Rightarrow> error + model) \<Rightarrow> state \<Rightarrow> error + state" where
  "with_network f s =
     (case network s of
        None \<Rightarrow> Inl NameError
      | Some m \<Rightarrow> (case f m of
                    Inl e \<Rightarrow> Inl e
                  | Inr m' \<Rightarrow> Inr (s\<lparr>network := Some m'\<rparr>)))"

definition checked :: "var \<Rightarrow> var \<Rightarrow> state \<Rightarrow> (model \<Rightarrow> state) \<Rightarrow> error + state" where
  "checked x y s k =
     (case (network s, arrays s x, arrays s y) of
        (Some m, Some a, Some b) \<Rightarrow>
          (case check_data m a b of Inl e \<Rightarrow> Inl e | Inr u \<Rightarrow> Inr (k m))
      | _ \<Rightarrow> Inl NameError)"

fun exec :: "env \<Rightarrow> stmt \<Rightarrow> state \<Rightarrow> error + state" where
  "exec E (Import m) s =
     (if keras_installed E then Inr (s\<lparr>modules := m # modules s\<rparr>) else Inl ImportError)"
| "exec E Keras_version s =
     (if ''keras'' \<in> set (modules s) then Inr s else Inl NameError)"
| "exec E Load_data s =
     (if ''keras.datasets.mnist'' \<in> set (modules s)
      then (case mnist E of ((x_train, y_train), (x_test, y_test)) \<Rightarrow>
              Inr (s\<lparr>arrays := (arrays s)(train_images \<mapsto> U8 x_train, train_labels \<mapsto> U8 y_train,
                                          test_images \<mapsto> U8 x_test, test_labels \<mapsto> U8 y_test)\<rparr>))
      else Inl NameError)"
| "exec E (Shape v) s = read_var v s"
| "exec E (Len v) s = read_var v s"
| "exec E (Display v) s = read_var v s"
| "exec E Sequential s =
     (if ''keras.models'' \<in> set (modules s) then Inr (s\<lparr>network := Some Sequential_new\<rparr>)
      else Inl NameError)"
| "exec E (Add l) s =
     (if ''keras.layers'' \<in> set (modules s) then with_network (\<lambda>m. add m l) s
      else Inl NameError)"
| "exec E (Compile optimizer loss metrics) s =
     with_network (\<lambda>m. compile m optimizer loss metrics) s"
| "exec E (Reshape v newshape) s = rebind v (pv_reshape newshape) s"
| "exec E (Astype_divide v) s = rebind v pv_astype_divide s"
| "exec E (To_categorical v) s =
     (if ''keras.utils.to_categorical'' \<in> set (modules s) then rebind v pv_to_categorical s
      else Inl NameError)"
| "exec E (Fit x y epochs batch_size) s =
     checked x y s (\<lambda>m. s\<lparr>network := Some (m\<lparr>epochs_fitted := epochs_fitted m + epochs\<rparr>)\<rparr>)"
| "exec E (Evaluate x y) s =
     checked x y s (\<lambda>m. s\<lparr>test_metrics := Some (measured E)\<rparr>)"
| "exec E Print_test_acc s =
     (case test_metrics s of
        None \<Rightarrow> Inl NameError
      | Some (test_loss, test_acc) \<Rightarrow> Inr (s\<lparr>stdout := stdout s @ [test_acc]\<rparr>))"

text \<open>
  One statement, recorded once it has returned; and a list of statements, run in order.
  A statement that raises ends the run with its exception: the notebook has no
  \<^verbatim>\<open>try\<close>, so nothing catches it and no later statement runs.
\<close>

definition step :: "env \<Rightarrow> stmt \<Rightarrow> state \<Rightarrow> error + state" where
  "step E c s = map_sum id (\<lambda>s'. s'\<lparr>executed := executed s' @ [c]\<rparr>) (exec E c s)"

fun exec_all :: "env \<Rightarrow> stmt list \<Rightarrow> state \<Rightarrow> error + state" where
  "exec_all E [] s = Inr s"
| "exec_all E (c # cs) s = (case step E c s of Inl e \<Rightarrow> Inl e | Inr s' \<Rightarrow> exec_all E cs s')"

subsection \<open>The notebook\<close>

definition dense_1 :: dense where
  "dense_1 = \<lparr>units = 512, activation = relu, input_shape = Some [28 * 28]\<rparr>"

definition dense_2 :: dense where
  "dense_2 = \<lparr>units = 10, activation = softmax, input_shape = None\<rparr>"

text \<open>The code cells, in the order of the file (which is the order of their execution counts).\<close>

definition notebook :: "stmt list" where
  "notebook =
    [Import ''keras'', Keras_version,
     Import ''keras.datasets.mnist'', Load_data,
     Shape train_images,
     Len train_labels,
     Display train_labels,
     Shape test_images,
     Len test_labels,
     Display test_labels,
     Import ''keras.models'', Import ''keras.layers'',
     Sequential, Add dense_1, Add dense_2,
     Compile ''rmsprop'' ''categorical_crossentropy'' [''accuracy''],
     Reshape train_images [60000, 28 * 28], Astype_divide train_images,
     Reshape test_images [10000, 28 * 28], Astype_divide test_images,
     Import ''keras.utils.to_categorical'',
     To_categorical train_labels, To_categorical test_labels,
     Fit train_images train_labels 5 128,
     Evaluate test_images test_labels,
     Print_test_acc]"

subsection \<open>Reading the statement list\<close>

text \<open>
  Which names a statement binds for the first time, which it rebinds to a transformed
  value, and which it hands to the framework. (\<open>exec\<close> changes the value of a name only in
  a statement that loads or transforms it.)
\<close>

fun loads :: "stmt \<Rightarrow> var \<Rightarrow> bool" where
  "loads Load_data v = True"
| "loads c v = False"

fun transforms :: "stmt \<Rightarrow> var \<Rightarrow> bool" where
  "transforms (Reshape u newshape) v = (u = v)"
| "transforms (Astype_divide u) v = (u = v)"
| "transforms (To_categorical u) v = (u = v)"
| "transforms c v = False"

fun consumes :: "stmt \<Rightarrow> var \<Rightarrow> bool" where
  "consumes (Fit x y epochs batch_size) v = (x = v \<or> y = v)"
| "consumes (Evaluate x y) v = (x = v \<or> y = v)"
| "consumes c v = False"

definition count_of :: "(stmt \<Rightarrow> var \<Rightarrow> bool) \<Rightarrow> var \<Rightarrow> stmt list \<Rightarrow> nat" where
  "count_of p v cs = length (filter (\<lambda>c. p c v) cs)"

text \<open>The statements after the first one that consumes \<open>v\<close>.\<close>

definition after_use :: "var \<Rightarrow> stmt list \<Rightarrow> stmt list" where
  "after_use v cs = tl (dropWhile (\<lambda>c. \<not> consumes c v) cs)"

text \<open>\<open>precedes a b cs\<close>: \<open>b\<close> occurs after the first occurrence of \<open>a\<close>.\<close>

fun precedes :: "'a \<Rightarrow> 'a \<Rightarrow> 'a list \<Rightarrow> bool" where
  "precedes a b [] = False"
| "precedes a b (c # cs) = (if c = a then b \<in> set cs else precedes a b cs)"

text \<open>The stages of the workflow; imports and the cells that only display a value have none.\<close>

datatype stage = Load | Build | Configure | Preprocess | Train | Test | Report

fun stage_of :: "stmt \<Rightarrow> stage option" where
  "stage_of Load_data = Some Load"
| "stage_of Sequential = Some Build"
| "stage_of (Add l) = Some Build"
| "stage_of (Compile optimizer loss metrics) = Some Configure"
| "stage_of (Reshape v newshape) = Some Preprocess"
| "stage_of (Astype_divide v) = Some Preprocess"
| "stage_of (To_categorical v) = Some Preprocess"
| "stage_of (Fit x y epochs batch_size) = Some Train"
| "stage_of (Evaluate x y) = Some Test"
| "stage_of Print_test_acc = Some Report"
| "stage_of c = None"

text \<open>The statements of the notebook that come before the first statement of a stage.\<close>

definition before :: "stage \<Rightarrow> stmt list" where
  "before st = takeWhile (\<lambda>c. stage_of c \<noteq> Some st) notebook"

text \<open>
  What each stage leaves behind in the namespace: the four names bound; a model with the
  two layers; the model compiled; all four arrays converted to floats; the model trained for
  at least one epoch; the test metrics bound; something printed. \<open>progress s\<close> lists the
  stages whose effect is present in \<open>s\<close>.
\<close>

definition is_float :: "pyval option \<Rightarrow> bool" where
  "is_float x = (case x of Some (Fl t a) \<Rightarrow> True | _ \<Rightarrow> False)"

fun reached :: "stage \<Rightarrow> state \<Rightarrow> bool" where
  "reached Load s =
     list_all (\<lambda>v. arrays s v \<noteq> None) [train_images, train_labels, test_images, test_labels]"
| "reached Build s = (map_option layers (network s) = Some [dense_1, dense_2])"
| "reached Configure s = (case network s of None \<Rightarrow> False | Some m \<Rightarrow> compiled m \<noteq> None)"
| "reached Preprocess s =
     list_all (\<lambda>v. is_float (arrays s v)) [train_images, train_labels, test_images, test_labels]"
| "reached Train s = (case network s of None \<Rightarrow> False | Some m \<Rightarrow> 0 < epochs_fitted m)"
| "reached Test s = (test_metrics s \<noteq> None)"
| "reached Report s = (stdout s \<noteq> [])"

definition progress :: "state \<Rightarrow> stage list" where
  "progress s = filter (\<lambda>st. reached st s) [Load, Build, Configure, Preprocess, Train, Test, Report]"

subsection \<open>Datasets of MNIST's shape\<close>

text \<open>
  What the notebook's inspection cells show of the loaded arrays: 60000 training images
  and 10000 test images of 28 by 28 pixels, one label per image, the labels being the
  digits 0 to 9 (each of which occurs among the training and among the test labels).
\<close>

definition digit_labels :: "nat \<Rightarrow> 8 word ndarray \<Rightarrow> bool" where
  "digit_labels n y \<longleftrightarrow>
     shape y = [n] \<and> wf_array y \<and> list_all (\<lambda>l. l \<le> 9) (flat y) \<and> 9 \<in> set (flat y)"

definition digit_images :: "nat \<Rightarrow> 8 word ndarray \<Rightarrow> bool" where
  "digit_images n x \<longleftrightarrow> shape x = [n, 28, 28] \<and> wf_array x"

definition mnist_like :: "env \<Rightarrow> bool" where
  "mnist_like E \<longleftrightarrow>
     keras_installed E
     \<and> (case mnist E of ((x_train, y_train), (x_test, y_test)) \<Rightarrow>
          digit_images 60000 x_train \<and> digit_labels 60000 y_train
          \<and> digit_images 10000 x_test \<and> digit_labels 10000 y_test)"

text \<open>A dataset of that shape, to instantiate the theorems: black images, labels 0 and 9.\<close>

definition blank_mnist :: env where
  "blank_mnist =
     \<lparr>keras_installed = True,
      mnist = ((\<lparr>shape = [60000, 28, 28], flat = replicate 47040000 0\<rparr>,
                \<lparr>shape = [60000], flat = replicate 59999 0 @ [9]\<rparr>),
               (\<lparr>shape = [10000, 28, 28], flat = replicate 7840000 0\<rparr>,
                \<lparr>shape = [10000], flat = replicate 9999 0 @ [9]\<rparr>)),
      measured = (0, 0)\<rparr>"

section \<open>Properties\<close>

subsection \<open>binary32 rounding\<close>

lemma quotient_of_pos:
  assumes "0 < x" and "quotient_of x = (a, b)"
  shows "0 < a" and "0 < b" and "x = of_int a / of_int b"
proof -
  show b: "0 < b" using assms(2) by (rule quotient_of_denom_pos)
  show x: "x = of_int a / of_int b" using assms(2) by (rule quotient_of_div)
  from assms(1) x b show "0 < a" by (simp add: zero_less_divide_iff)
qed

lemma ilog2_bounds:
  assumes "0 < x"
  shows "2 powi (ilog2 x) \<le> x" and "x < 2 powi (ilog2 x + 1)"
proof -
  obtain a b where q: "quotient_of x = (a, b)" by (cases "quotient_of x")
  from quotient_of_pos[OF assms q] have a: "0 < a" and b: "0 < b"
    and x: "x = of_int a / of_int b" by auto
  define la where "la = floorlog 2 (nat a)"
  define lb where "lb = floorlog 2 (nat b)"
  define d where "d = int la - int lb"
  have la: "2 ^ (la - 1) \<le> nat a" "nat a < 2 ^ la"
    using floorlog_bounds[of "nat a" 2] a by (auto simp: la_def)
  have lb: "2 ^ (lb - 1) \<le> nat b" "nat b < 2 ^ lb"
    using floorlog_bounds[of "nat b" 2] b by (auto simp: lb_def)
  have la1: "1 \<le> la" using a by (simp add: la_def floorlog_def)
  have lb1: "1 \<le> lb" using b by (simp add: lb_def floorlog_def)
  have e: "ilog2 x = (if 2 powi d \<le> x then d else d - 1)"
    by (simp add: ilog2_def q d_def la_def lb_def)
  have ra: "(2::rat) ^ (la - 1) \<le> of_int a" "(of_int a :: rat) < 2 ^ la"
    using la by simp_all
  have rb: "(2::rat) ^ (lb - 1) \<le> of_int b" "(of_int b :: rat) < 2 ^ lb"
    using lb by simp_all
  have "d - 1 = int (la - 1) - int lb" using la1 by (simp add: d_def)
  then have "(2::rat) powi (d - 1) = 2 ^ (la - 1) / 2 ^ lb"
    by (simp add: power_int_diff)
  also have "\<dots> \<le> of_int a / of_int b"
    using ra(1) rb(2) a b by (intro frac_le) simp_all
  finally have lo: "2 powi (d - 1) \<le> x" by (simp add: x)
  have "d + 1 = int la - int (lb - 1)" using lb1 by (simp add: d_def)
  then have "(2::rat) powi (d + 1) = 2 ^ la / 2 ^ (lb - 1)"
    by (simp add: power_int_diff)
  moreover have "of_int a / of_int b < (2::rat) ^ la / 2 ^ (lb - 1)"
    using ra(2) rb(1) a b by (intro frac_less) simp_all
  ultimately have hi: "x < 2 powi (d + 1)" by (simp add: x)
  show "2 powi (ilog2 x) \<le> x" using lo by (simp add: e)
  show "x < 2 powi (ilog2 x + 1)" using hi by (auto simp add: e not_le)
qed

lemma round_half_even_of_int: "round_half_even (of_int n) = n"
  by (simp add: round_half_even_def)

lemma round_half_even_le:
  assumes "x \<le> of_int n"
  shows "round_half_even x \<le> n"
proof (cases "\<lfloor>x\<rfloor> = n")
  case True
  then have "of_int n \<le> x" using of_int_floor_le[of x] by simp
  with assms have "x = of_int n" by simp
  then show ?thesis by (simp add: round_half_even_of_int)
next
  case False
  moreover have "\<lfloor>x\<rfloor> \<le> n" using assms by (simp add: floor_le_iff)
  ultimately have "\<lfloor>x\<rfloor> + 1 \<le> n" by simp
  moreover have "round_half_even x \<le> \<lfloor>x\<rfloor> + 1"
    by (simp add: round_half_even_def Let_def)
  ultimately show ?thesis by simp
qed

lemma round_half_even_ge:
  assumes "of_int n \<le> x"
  shows "n \<le> round_half_even x"
proof -
  have "n \<le> \<lfloor>x\<rfloor>" using assms by (simp add: le_floor_iff)
  moreover have "\<lfloor>x\<rfloor> \<le> round_half_even x"
    by (simp add: round_half_even_def Let_def)
  ultimately show ?thesis by simp
qed

text \<open>Below \<open>2 ^ 24\<close> the rounding grid is a power of two that is at most one.\<close>

lemma float32_grid:
  assumes "0 < x" and "x < 2 ^ 24"
  obtains p where "float32 x = of_int (round_half_even (x * 2 ^ p)) / 2 ^ p"
proof -
  define e where "e = max (ilog2 x) (- 126)"
  have "2 powi (ilog2 x) < (2::rat) powi 24"
    using ilog2_bounds(1)[OF assms(1)] assms(2) by simp
  then have "ilog2 x < 24"
    using power_int_le_imp_less_exp[of "2::rat" "ilog2 x" 24] by simp
  then have p: "0 \<le> 23 - e" by (simp add: e_def)
  have "float32 x = of_int (round_half_even (x * 2 powi (23 - e))) / 2 powi (23 - e)"
    using assms(1) by (simp add: float32_def e_def Let_def)
  then have "float32 x = of_int (round_half_even (x * 2 ^ nat (23 - e))) / 2 ^ nat (23 - e)"
    using p by (simp add: power_int_def)
  then show ?thesis by (rule that)
qed

lemma float32_between:
  assumes "of_int m \<le> x" and "x \<le> of_int n" and "0 < x" and "x < 2 ^ 24"
  shows "of_int m \<le> float32 x \<and> float32 x \<le> of_int n"
proof -
  obtain p where f: "float32 x = of_int (round_half_even (x * 2 ^ p)) / 2 ^ p"
    using float32_grid[OF assms(3,4)] by blast
  have "x * 2 ^ p \<le> of_int (n * 2 ^ p)" using assms(2) by simp
  then have hi: "round_half_even (x * 2 ^ p) \<le> n * 2 ^ p" by (rule round_half_even_le)
  have "of_int (m * 2 ^ p) \<le> x * 2 ^ p" using assms(1) by simp
  then have lo: "m * 2 ^ p \<le> round_half_even (x * 2 ^ p)" by (rule round_half_even_ge)
  have "(of_int (round_half_even (x * 2 ^ p)) :: rat) \<le> of_int (n * 2 ^ p)"
    using hi by (simp only: of_int_le_iff)
  then have 1: "float32 x \<le> of_int n" by (simp add: f field_simps)
  have "(of_int (m * 2 ^ p) :: rat) \<le> of_int (round_half_even (x * 2 ^ p))"
    using lo by (simp only: of_int_le_iff)
  then have 2: "of_int m \<le> float32 x" by (simp add: f field_simps)
  from 1 2 show ?thesis by simp
qed

lemma float32_of_nat:
  assumes "k < 2 ^ 24"
  shows "float32 (of_nat k) = of_nat k"
proof (cases "k = 0")
  case True
  then show ?thesis by (simp add: float32_def)
next
  case False
  have "(of_nat k :: rat) < 2 ^ 24" using assms by (simp add: of_nat_less_numeral_power_cancel_iff)
  with False float32_between[of "int k" "of_nat k" "int k"] show ?thesis by simp
qed

lemma float32_unit_interval:
  assumes "0 \<le> x" and "x \<le> 1"
  shows "0 \<le> float32 x \<and> float32 x \<le> 1"
proof (cases "x = 0")
  case True
  then show ?thesis by (simp add: float32_def)
next
  case False
  with assms have "0 < x" "x < 2 ^ 24" by simp_all
  from float32_between[of 0 x 1, OF _ _ this] assms show ?thesis by simp
qed

lemma uint8_value:
  obtains k where "(of_nat (unat (w :: 8 word)) :: rat) = of_nat k" and "k \<le> 255"
proof -
  have "unat w < 2 ^ 8" using unsigned_less[of w] by simp
  then have "unat w \<le> 255" by simp
  then show ?thesis using that by blast
qed

lemma float32_of_uint8: "float32 (of_nat (unat (w :: 8 word))) = of_nat (unat w)"
proof -
  obtain k where k: "(of_nat (unat w) :: rat) = of_nat k" "k \<le> 255" by (rule uint8_value)
  then have "k < 2 ^ 24" by simp
  then have "float32 (of_nat k) = of_nat k" by (rule float32_of_nat)
  then show ?thesis by (simp only: k(1))
qed

lemma float32_255: "float32 255 = 255"
  using float32_of_nat[of 255] by simp

lemma uint8_scaled_unit:
  "0 \<le> (of_nat (unat (w :: 8 word)) :: rat) / 255 \<and> (of_nat (unat w) :: rat) / 255 \<le> 1"
proof -
  obtain k where k: "(of_nat (unat w) :: rat) = of_nat k" "k \<le> 255" by (rule uint8_value)
  have "(of_nat k :: rat) \<le> of_nat 255" using k(2) by (simp only: of_nat_le_iff)
  then have "0 \<le> (of_nat k :: rat) / 255 \<and> (of_nat k :: rat) / 255 \<le> 1" by simp
  then show ?thesis by (simp only: k(1))
qed

lemma astype_divide_flat:
  "flat (true_divide (astype_float32_u8 a) 255)
     = map (\<lambda>w. float32 (of_nat (unat w) / 255)) (flat a)"
proof -
  have "flat (true_divide (astype_float32_u8 a) 255)
          = map (\<lambda>w. float32 (float32 (of_nat (unat w)) / float32 255)) (flat a)"
    unfolding true_divide_def astype_float32_u8_def by (simp add: comp_def del: of_nat_unat)
  then show ?thesis by (simp only: float32_of_uint8 float32_255)
qed

lemma astype_divide_unit:
  assumes "x \<in> set (flat (true_divide (astype_float32_u8 a) 255))"
  shows "0 \<le> x \<and> x \<le> 1"
proof -
  from assms obtain w :: "8 word" where "x = float32 (of_nat (unat w) / 255)"
    unfolding astype_divide_flat by auto
  then show ?thesis using uint8_scaled_unit[of w] float32_unit_interval by blast
qed

subsection \<open>Row-major indexing\<close>

lemma row_major_bound:
  assumes "i < n" and "k < m"
  shows "i * m + k < n * (m::nat)"
proof -
  have "i * m + k < Suc i * m" using assms(2) by simp
  also have "Suc i * m \<le> n * m" using assms(1) by (intro mult_le_mono1) simp
  finally show ?thesis .
qed

lemma item_2d:
  assumes "shape a = [n, m]" and "wf_array a" and "i < n" and "j < m"
  shows "item a [i, j] = Inr (flat a ! (i * m + j))"
proof -
  have "i * m + j < length (flat a)"
    using assms(1,2) row_major_bound[OF assms(3,4)] by (simp add: wf_array_def nd_size_def)
  then show ?thesis using assms by (simp add: item_def)
qed

lemma item_3d:
  assumes "shape a = [n, h, w]" and "wf_array a" and "i < n" and "r < h" and "c < w"
  shows "item a [i, r, c] = Inr (flat a ! (i * (h * w) + (r * w + c)))"
proof -
  have "r * w + c < h * w" using assms(4,5) by (rule row_major_bound)
  with assms(3) have "i * (h * w) + (r * w + c) < n * (h * w)" by (rule row_major_bound)
  then have "i * (h * w) + (r * w + c) < length (flat a)"
    using assms(1,2) by (simp add: wf_array_def nd_size_def)
  then show ?thesis using assms by (simp add: item_def)
qed

lemma flatten_index_bij:
  "bij_betw (\<lambda>(i, r, c). (i, 28 * r + c))
     ({..<count} \<times> {..<28} \<times> {..<28}) ({..<count} \<times> {..<784::nat})"
  by (rule bij_betw_byWitness[where f' = "\<lambda>(i, j). (i, j div 28, j mod 28)"]) auto


subsection \<open>The flattening reshape\<close>

text \<open>
  Claim C9. The flattening reshape from \<open>(count, 28, 28)\<close> to \<open>(count, 784)\<close> preserves
  values and is a bijection on entries: pixel \<open>(i, r, c)\<close> becomes entry \<open>(i, 28 * r + c)\<close>,
  the index map is a bijection between the two index sets (so every entry of the original
  appears exactly once in the result), and reshaping the result back to \<open>(count, 28, 28)\<close>
  gives the original array.
\<close>

theorem reshape_flatten_bijection:
  assumes "shape a = [count, 28, 28]" and "wf_array a"
  shows "\<exists>b. reshape a [count, 28 * 28] = Inr b
           \<and> shape b = [count, 784] \<and> wf_array b
           \<and> (\<forall>i<count. \<forall>r<28. \<forall>c<28.
                 item b [i, 28 * r + c] = item a [i, r, c]
               \<and> item a [i, r, c] = Inr (flat a ! (i * 784 + (28 * r + c))))
           \<and> bij_betw (\<lambda>(i, r, c). (i, 28 * r + c))
                ({..<count} \<times> {..<28} \<times> {..<28}) ({..<count} \<times> {..<784::nat})
           \<and> reshape b [count, 28, 28] = Inr a"
proof -
  let ?b = "a\<lparr>shape := [count, 28 * 28]\<rparr>"
  have r: "reshape a [count, 28 * 28] = Inr ?b"
    using assms(1) by (simp add: reshape_def nd_size_def)
  have s: "shape ?b = [count, 784]" by simp
  have w: "wf_array ?b" using assms by (simp add: wf_array_def nd_size_def)
  have i: "item ?b [i, 28 * r + c] = item a [i, r, c]
         \<and> item a [i, r, c] = Inr (flat a ! (i * 784 + (28 * r + c)))"
    if "i < count" "r < 28" "c < 28" for i r c
  proof -
    have "28 * r + c < 784" using that by simp
    with that(1) have "item ?b [i, 28 * r + c] = Inr (flat ?b ! (i * 784 + (28 * r + c)))"
      using s w by (intro item_2d) simp_all
    moreover have "item a [i, r, c] = Inr (flat a ! (i * (28 * 28) + (r * 28 + c)))"
      using assms that by (intro item_3d)
    ultimately show ?thesis by (simp add: mult.commute)
  qed
  have rt: "reshape ?b [count, 28, 28] = Inr a"
    using assms(1) by (simp add: reshape_def nd_size_def)
  from r s w i flatten_index_bij rt show ?thesis by blast
qed

theorem reshape_flatten_bijection_witness:
  "shape \<lparr>shape = [1, 28, 28], flat = replicate 784 (7 :: 8 word)\<rparr> = [1, 28, 28]
   \<and> wf_array \<lparr>shape = [1, 28, 28], flat = replicate 784 (7 :: 8 word)\<rparr>
   \<and> (\<exists>b. reshape \<lparr>shape = [1, 28, 28], flat = replicate 784 (7 :: 8 word)\<rparr> [1, 28 * 28] = Inr b
           \<and> shape b = [1, 784] \<and> wf_array b
           \<and> reshape b [1, 28, 28] = Inr \<lparr>shape = [1, 28, 28], flat = replicate 784 (7 :: 8 word)\<rparr>)"
proof -
  let ?a = "\<lparr>shape = [1, 28, 28], flat = replicate 784 (7 :: 8 word)\<rparr>"
  have h1: "shape ?a = [1, 28, 28]" by simp
  have h2: "wf_array ?a" by (simp add: wf_array_def nd_size_def)
  from reshape_flatten_bijection[OF h1 h2] h1 h2 show ?thesis by blast
qed

subsection \<open>One-hot encoding of the labels\<close>

lemma length_concat_uniform:
  "length (concat (map f xs)) = length xs * K" if "\<And>x. x \<in> set xs \<Longrightarrow> length (f x) = K"
  using that by (induction xs) simp_all

lemma nth_concat_uniform:
  assumes "\<And>x. x \<in> set xs \<Longrightarrow> length (f x) = K" and "i < length xs" and "j < K"
  shows "concat (map f xs) ! (i * K + j) = f (xs ! i) ! j"
  using assms
proof (induction xs arbitrary: i)
  case Nil
  then show ?case by simp
next
  case (Cons x xs)
  show ?case
  proof (cases i)
    case 0
    with Cons.prems show ?thesis by (simp add: nth_append)
  next
    case (Suc i')
    have "concat (map f xs) ! (i' * K + j) = f (xs ! i') ! j"
      using Cons.prems Suc by (intro Cons.IH) simp_all
    with Cons.prems(1) Suc show ?thesis by (simp add: nth_append)
  qed
qed

lemma length_one_hot: "length (one_hot K k) = K"
  by (simp add: one_hot_def)

lemma nth_one_hot: "j < K \<Longrightarrow> one_hot K k ! j = (if j = k then 1 else 0)"
  by (simp add: one_hot_def)

lemma to_categorical_labels:
  assumes "shape y = [n]" and "flat y \<noteq> []" and "\<forall>l \<in> set (flat y). 0 \<le> l"
  shows "to_categorical y =
           Inr \<lparr>shape = [n, nat (Max (set (flat y)) + 1)],
                flat = concat (map (\<lambda>l. one_hot (nat (Max (set (flat y)) + 1)) (nat l)) (flat y))\<rparr>"
proof -
  have "Max (set (flat y)) \<in> set (flat y)" using assms(2) by (intro Max_in) simp_all
  then have m: "0 \<le> Max (set (flat y))" using assms(3) by blast
  have "\<not> list_ex (\<lambda>l. l < - (Max (set (flat y)) + 1)) (flat y)"
    using assms(3) m by (auto simp: list_ex_iff)
  moreover have "\<forall>l \<in> set (flat y). \<not> l < 0" using assms(3) by auto
  ultimately show ?thesis
    using assms(1,2) m by (simp add: to_categorical_def Let_def cong: map_cong)
qed

lemma to_categorical_rows:
  assumes "shape y = [n]" and "wf_array y" and "0 < n"
    and "\<forall>l \<in> set (flat y). 0 \<le> l \<and> l \<le> 9"
  shows "\<exists>c. to_categorical y = Inr c
           \<and> shape c = [n, nat (Max (set (flat y)) + 1)] \<and> wf_array c
           \<and> (\<forall>i<n. \<forall>j<nat (Max (set (flat y)) + 1).
                 item c [i, j] = Inr (if int j = flat y ! i then 1 else 0))
           \<and> (shape c = [n, 10] \<longleftrightarrow> 9 \<in> set (flat y))"
proof -
  define K where "K = nat (Max (set (flat y)) + 1)"
  define c where "c = \<lparr>shape = [n, K], flat = concat (map (\<lambda>l. one_hot K (nat l)) (flat y))\<rparr>"
  have len: "length (flat y) = n" using assms(1,2) by (simp add: wf_array_def nd_size_def)
  with assms(3) have ne: "flat y \<noteq> []" by auto
  have nonneg: "\<forall>l \<in> set (flat y). 0 \<le> l" using assms(4) by blast
  have tc: "to_categorical y = Inr c"
    using to_categorical_labels[OF assms(1) ne nonneg] by (simp add: c_def K_def)
  have s: "shape c = [n, K]" by (simp add: c_def)
  have "length (flat c) = n * K"
    using length_concat_uniform[of "flat y" "\<lambda>l. one_hot K (nat l)" K] len
    by (simp add: c_def length_one_hot)
  then have w: "wf_array c" using s by (simp add: wf_array_def nd_size_def)
  have it: "item c [i, j] = Inr (if int j = flat y ! i then 1 else 0)" if "i < n" "j < K" for i j
  proof -
    have "0 \<le> flat y ! i" using nonneg that(1) len by simp
    then have eq: "j = nat (flat y ! i) \<longleftrightarrow> int j = flat y ! i" by auto
    have "item c [i, j] = Inr (flat c ! (i * K + j))" using s w that by (rule item_2d)
    also have "flat c ! (i * K + j) = one_hot K (nat (flat y ! i)) ! j"
      using nth_concat_uniform[of "flat y" "\<lambda>l. one_hot K (nat l)" K i j] that len
      by (simp add: c_def length_one_hot)
    also have "\<dots> = (if int j = flat y ! i then 1 else 0)"
      using that(2) eq by (simp add: nth_one_hot)
    finally show ?thesis .
  qed
  have mx: "Max (set (flat y)) \<in> set (flat y)" using ne by (intro Max_in) simp_all
  have "Max (set (flat y)) = 9 \<longleftrightarrow> 9 \<in> set (flat y)"
  proof
    assume "Max (set (flat y)) = 9" with mx show "9 \<in> set (flat y)" by simp
  next
    assume "9 \<in> set (flat y)"
    then have "9 \<le> Max (set (flat y))" by (intro Max_ge) simp_all
    moreover have "Max (set (flat y)) \<le> 9" using mx assms(4) by blast
    ultimately show "Max (set (flat y)) = 9" by simp
  qed
  moreover have "0 \<le> Max (set (flat y))" using mx nonneg by blast
  ultimately have ten: "shape c = [n, 10] \<longleftrightarrow> 9 \<in> set (flat y)"
    by (auto simp: s K_def)
  from tc s w it ten show ?thesis unfolding K_def by blast
qed

text \<open>
  Claim C2, for the width the library computes. \<^verbatim>\<open>to_categorical\<close> is called without
  \<^verbatim>\<open>num_classes\<close>, so the width of the encoding is one more than the largest label of the
  array it is given. For a non-empty one-dimensional array of \<open>n\<close> labels, each between 0
  and 9, it returns an \<open>n \<times> (m + 1)\<close> array, \<open>m\<close> the largest label present; row \<open>i\<close> has
  a 1 at the index of label \<open>i\<close> and 0 elsewhere; the width is 10 exactly when the label 9
  occurs in the array, as it does in both label arrays of MNIST.
\<close>

theorem to_categorical_one_hot:
  assumes "shape y = [n]" and "wf_array y" and "0 < n"
    and "\<forall>l \<in> set (flat y). 0 \<le> l \<and> l \<le> 9"
  shows "\<exists>c. to_categorical y = Inr c
           \<and> shape c = [n, nat (Max (set (flat y)) + 1)] \<and> wf_array c
           \<and> (\<forall>i<n. \<forall>j<nat (Max (set (flat y)) + 1).
                 item c [i, j] = Inr (if int j = flat y ! i then 1 else 0))
           \<and> (shape c = [n, 10] \<longleftrightarrow> 9 \<in> set (flat y))"
  using assms by (rule to_categorical_rows)

theorem to_categorical_one_hot_witness:
  "shape \<lparr>shape = [3], flat = [5, 0, 9 :: int]\<rparr> = [3]
   \<and> wf_array \<lparr>shape = [3], flat = [5, 0, 9 :: int]\<rparr>
   \<and> (0::nat) < 3
   \<and> list_all (\<lambda>l. 0 \<le> l \<and> l \<le> 9) (flat \<lparr>shape = [3], flat = [5, 0, 9 :: int]\<rparr>)
   \<and> (\<exists>c. to_categorical \<lparr>shape = [3], flat = [5, 0, 9]\<rparr> = Inr c \<and> shape c = [3, 10]
          \<and> item c [0, 5] = Inr 1 \<and> item c [0, 9] = Inr 0)"
proof -
  let ?y = "\<lparr>shape = [3], flat = [5, 0, 9 :: int]\<rparr>"
  have h1: "shape ?y = [3]" by simp
  have h2: "wf_array ?y" by (simp add: wf_array_def nd_size_def)
  have h3: "(0::nat) < 3" by simp
  have h4: "\<forall>l \<in> set (flat ?y). 0 \<le> l \<and> l \<le> 9" by simp
  from to_categorical_one_hot[OF h1 h2 h3 h4] obtain c where
    c: "to_categorical ?y = Inr c" "shape c = [3, nat (Max (set (flat ?y)) + 1)]"
       "\<forall>i<3. \<forall>j<nat (Max (set (flat ?y)) + 1). item c [i, j] = Inr (if int j = flat ?y ! i then 1 else 0)"
    by blast
  have "nat (Max (set (flat ?y)) + 1) = 10" by simp
  with c have "shape c = [3, 10]" "item c [0, 5] = Inr 1" "item c [0, 9] = Inr 0" by simp_all
  moreover have "list_all (\<lambda>l. 0 \<le> l \<and> l \<le> 9) (flat ?y)" by simp
  ultimately show ?thesis using c(1) h1 h2 h3 by blast
qed

text \<open>
  Claim C2 as stated (a length-10 vector for every label between 0 and 9, an \<open>n \<times> 10\<close>
  array for every array of such labels) fails on the labels \<open>0, 1, 2\<close>: the result is the
  \<open>3 \<times> 3\<close> identity, not a \<open>3 \<times> 10\<close> array.
\<close>

theorem to_categorical_width_counterexample:
  "to_categorical \<lparr>shape = [3], flat = [0, 1, 2]\<rparr>
     = Inr \<lparr>shape = [3, 3], flat = [1, 0, 0, 0, 1, 0, 0, 0, 1]\<rparr>"
  by code_simp

subsection \<open>Running statement lists\<close>

lemma exec_all_append:
  "exec_all E (cs @ ds) s =
     (case exec_all E cs s of Inl e \<Rightarrow> Inl e | Inr s' \<Rightarrow> exec_all E ds s')"
  by (induction cs arbitrary: s) (auto split: sum.splits)




lemma exec_frame:
  assumes "exec E c s = Inr s'" and "\<not> loads c v" and "\<not> transforms c v"
  shows "arrays s' v = arrays s v"
  using assms
  by (cases c)
     (auto simp: read_var_def rebind_def with_network_def checked_def
           split: if_splits option.splits sum.splits prod.splits)

lemma run_needs_keras:
  assumes "exec_all E notebook init = Inr s"
  shows "keras_installed E"
proof (rule ccontr)
  assume "\<not> keras_installed E"
  then have "exec_all E notebook init = Inl ImportError"
    by (simp add: notebook_def step_def)
  with assms show False by simp
qed

lemma exec_keeps_layers:
  assumes "exec E c s = Inr s'" and "stage_of c \<noteq> Some Build"
  shows "map_option layers (network s') = map_option layers (network s)"
  using assms
  by (cases c)
     (auto simp: read_var_def rebind_def with_network_def checked_def compile_def
           split: if_splits option.splits sum.splits prod.splits)

lemma exec_all_keeps_layers:
  assumes "exec_all E cs s = Inr s'" and "\<forall>c \<in> set cs. stage_of c \<noteq> Some Build"
  shows "map_option layers (network s') = map_option layers (network s)"
  using assms
proof (induction cs arbitrary: s)
  case Nil
  then show ?case by simp
next
  case (Cons c cs)
  then obtain s1 where 1: "step E c s = Inr s1" and 2: "exec_all E cs s1 = Inr s'"
    by (auto split: sum.splits)
  from 1 obtain s0 where 3: "exec E c s = Inr s0" and 4: "s1 = s0\<lparr>executed := executed s0 @ [c]\<rparr>"
    by (cases "exec E c s") (auto simp: step_def)
  have "map_option layers (network s1) = map_option layers (network s)"
    using exec_keeps_layers[OF 3] Cons.prems(2) 4 by simp
  moreover have "map_option layers (network s') = map_option layers (network s1)"
    using Cons.IH[OF 2] Cons.prems(2) by simp
  ultimately show ?case by simp
qed

lemma build_run:
  assumes "keras_installed E"
  shows "\<exists>s. exec_all E (take 15 notebook) init = Inr s
           \<and> map_option layers (network s) = Some [dense_1, dense_2]"
proof -
  obtain x_train y_train x_test y_test
    where m: "mnist E = ((x_train, y_train), (x_test, y_test))"
    by (metis surj_pair)
  show ?thesis
    using assms m
    by (simp add: notebook_def init_def step_def read_var_def with_network_def add_def
        Sequential_new_def dense_1_def dense_2_def)
qed

subsection \<open>The run on a dataset of MNIST's shape\<close>

lemma blank_mnist_like: "mnist_like blank_mnist"
  by (simp add: mnist_like_def blank_mnist_def digit_images_def digit_labels_def
      wf_array_def nd_size_def list_all_iff)

lemma shape_true_divide: "shape (true_divide a c) = shape a"
  by (simp add: true_divide_def)

lemma shape_astype_float32_u8: "shape (astype_float32_u8 a) = shape a"
  by (simp add: astype_float32_u8_def)

lemma pv_to_categorical_digits:
  assumes "digit_labels n y" and "0 < n"
  shows "\<exists>c. pv_to_categorical (U8 y) = Inr (Fl Float64 c) \<and> shape c = [n, 10] \<and> wf_array c
           \<and> (\<forall>i<n. \<forall>j<10. item c [i, j] = Inr (if j = unat (flat y ! i) then 1 else 0))"
proof -
  let ?y = "as_int_array (U8 y)"
  have h1: "shape ?y = [n]" using assms(1) by (simp add: digit_labels_def)
  have h2: "wf_array ?y" using assms(1) by (simp add: digit_labels_def wf_array_def nd_size_def)
  have h4: "\<forall>l \<in> set (flat ?y). 0 \<le> l \<and> l \<le> 9"
    using assms(1) by (auto simp: digit_labels_def list_all_iff word_le_def)
  have nine: "9 \<in> set (flat ?y)"
  proof -
    have "(9 :: 8 word) \<in> set (flat y)" using assms(1) by (simp add: digit_labels_def)
    then have "uint (9 :: 8 word) \<in> uint ` set (flat y)" by (rule imageI)
    then have "9 \<in> uint ` set (flat y)" by simp
    then show ?thesis by simp
  qed
  from to_categorical_rows[OF h1 h2 assms(2) h4] nine obtain c where
    c: "to_categorical ?y = Inr c" "shape c = [n, 10]" "wf_array c"
       "shape c = [n, nat (Max (set (flat ?y)) + 1)]"
       "\<forall>i<n. \<forall>j<nat (Max (set (flat ?y)) + 1). item c [i, j] = Inr (if int j = flat ?y ! i then 1 else 0)"
    by blast
  from c(2,4) have K: "nat (Max (set (flat ?y)) + 1) = 10" by simp
  have len: "length (flat y) = n" using assms(1) by (simp add: digit_labels_def wf_array_def nd_size_def)
  have "item c [i, j] = Inr (if j = unat (flat y ! i) then 1 else 0)" if "i < n" "j < 10" for i j
  proof -
    have "item c [i, j] = Inr (if int j = flat ?y ! i then 1 else 0)" using c(5) that K by simp
    moreover have "flat ?y ! i = uint (flat y ! i)" using that(1) len by simp
    moreover have "int j = uint (flat y ! i) \<longleftrightarrow> j = unat (flat y ! i)"
      by (metis int_eq_iff nat_int unat_eq_nat_uint uint_nonnegative nat_0_le)
    ultimately show ?thesis by simp
  qed
  with c(1,2,3) show ?thesis by (simp add: pv_to_categorical_def)
qed

lemma notebook_run:
  assumes "mnist_like E"
  shows "\<exists>x_train y_train x_test y_test ys yt.
           mnist E = ((x_train, y_train), (x_test, y_test))
           \<and> pv_to_categorical (U8 y_train) = Inr (Fl Float64 ys) \<and> shape ys = [60000, 10]
           \<and> pv_to_categorical (U8 y_test) = Inr (Fl Float64 yt) \<and> shape yt = [10000, 10]
           \<and> exec_all E notebook init =
               Inr \<lparr>modules = [''keras.utils.to_categorical'', ''keras.layers'', ''keras.models'',
                               ''keras.datasets.mnist'', ''keras''],
                    arrays = [train_images \<mapsto> Fl Float32 (true_divide (astype_float32_u8
                                  (x_train\<lparr>shape := [60000, 784]\<rparr>)) 255),
                              train_labels \<mapsto> Fl Float64 ys,
                              test_images \<mapsto> Fl Float32 (true_divide (astype_float32_u8
                                  (x_test\<lparr>shape := [10000, 784]\<rparr>)) 255),
                              test_labels \<mapsto> Fl Float64 yt],
                    network = Some \<lparr>layers = [dense_1, dense_2],
                                    compiled = Some (''rmsprop'', ''categorical_crossentropy'', [''accuracy'']),
                                    epochs_fitted = 5\<rparr>,
                    test_metrics = Some (measured E),
                    stdout = [snd (measured E)],
                    executed = notebook\<rparr>"
proof -
  obtain x_train y_train x_test y_test
    where m: "mnist E = ((x_train, y_train), (x_test, y_test))"
    by (metis surj_pair)
  from assms m have k: "keras_installed E"
    and d: "digit_images 60000 x_train" "digit_labels 60000 y_train"
           "digit_images 10000 x_test" "digit_labels 10000 y_test"
    by (simp_all add: mnist_like_def)
  from pv_to_categorical_digits[OF d(2)] obtain ys
    where ys: "pv_to_categorical (U8 y_train) = Inr (Fl Float64 ys)" "shape ys = [60000, 10]"
    by auto
  from pv_to_categorical_digits[OF d(4)] obtain yt
    where yt: "pv_to_categorical (U8 y_test) = Inr (Fl Float64 yt)" "shape yt = [10000, 10]"
    by auto
  have sx: "shape x_train = [60000, 28, 28]" "shape x_test = [10000, 28, 28]"
    using d by (simp_all add: digit_images_def)
  have "exec_all E notebook init =
               Inr \<lparr>modules = [''keras.utils.to_categorical'', ''keras.layers'', ''keras.models'',
                               ''keras.datasets.mnist'', ''keras''],
                    arrays = [train_images \<mapsto> Fl Float32 (true_divide (astype_float32_u8
                                  (x_train\<lparr>shape := [60000, 784]\<rparr>)) 255),
                              train_labels \<mapsto> Fl Float64 ys,
                              test_images \<mapsto> Fl Float32 (true_divide (astype_float32_u8
                                  (x_test\<lparr>shape := [10000, 784]\<rparr>)) 255),
                              test_labels \<mapsto> Fl Float64 yt],
                    network = Some \<lparr>layers = [dense_1, dense_2],
                                    compiled = Some (''rmsprop'', ''categorical_crossentropy'', [''accuracy'']),
                                    epochs_fitted = 5\<rparr>,
                    test_metrics = Some (measured E),
                    stdout = [snd (measured E)],
                    executed = notebook\<rparr>"
    using k m ys yt sx
    by (simp add: notebook_def init_def step_def read_var_def rebind_def with_network_def
        checked_def check_data_def add_def compile_def Sequential_new_def dense_1_def dense_2_def
        reshape_def nd_size_def shape_true_divide shape_astype_float32_u8 fun_upd_twist
        split: prod.splits)
  with m ys yt show ?thesis by blast
qed

lemma item_preprocessed:
  assumes "digit_images n x" and "i < n" and "r < 28" and "c < 28"
  shows "item (true_divide (astype_float32_u8 (x\<lparr>shape := [n, 784]\<rparr>)) 255) [i, 28 * r + c]
           = map_sum id (\<lambda>w. float32 (of_nat (unat w) / 255)) (item x [i, r, c])"
proof -
  let ?b = "true_divide (astype_float32_u8 (x\<lparr>shape := [n, 784]\<rparr>)) 255"
  have sx: "shape x = [n, 28, 28]" and wx: "wf_array x"
    using assms(1) by (simp_all add: digit_images_def)
  have len: "length (flat x) = n * 784" using sx wx by (simp add: wf_array_def nd_size_def)
  have j: "28 * r + c < 784" using assms(3,4) by simp
  have k: "i * 784 + (28 * r + c) < length (flat x)"
    using row_major_bound[OF assms(2) j] len by simp
  have sb: "shape ?b = [n, 784]" by (simp add: shape_true_divide shape_astype_float32_u8)
  have wb: "wf_array ?b"
    using len by (simp add: wf_array_def nd_size_def true_divide_def astype_float32_u8_def)
  have "item ?b [i, 28 * r + c] = Inr (flat ?b ! (i * 784 + (28 * r + c)))"
    using sb wb assms(2) j by (rule item_2d)
  also have "flat ?b ! (i * 784 + (28 * r + c))
               = float32 (of_nat (unat (flat x ! (i * 784 + (28 * r + c)))) / 255)"
    using k by (simp add: astype_divide_flat del: of_nat_unat)
  finally have 1: "item ?b [i, 28 * r + c]
                     = Inr (float32 (of_nat (unat (flat x ! (i * 784 + (28 * r + c)))) / 255))" .
  have "item x [i, r, c] = Inr (flat x ! (i * (28 * 28) + (r * 28 + c)))"
    using sx wx assms(2,3,4) by (rule item_3d)
  then have 2: "item x [i, r, c] = Inr (flat x ! (i * 784 + (28 * r + c)))"
    by (simp add: mult.commute)
  show ?thesis unfolding 1 2 by simp
qed

lemma preprocessing_run:
  assumes "mnist E = ((x_train, y_train), (x_test, y_test))" and "keras_installed E"
    and "shape x_train = [60000, 28, 28]" and "shape x_test = [10000, 28, 28]"
    and "pv_to_categorical (U8 y_train) = Inr (Fl Float64 ys)"
    and "pv_to_categorical (U8 y_test) = Inr (Fl Float64 yt)"
  shows "\<exists>s0. exec_all E (takeWhile (\<lambda>c. stage_of c \<noteq> Some Train) notebook) init = Inr s0
           \<and> arrays s0 = [train_images \<mapsto> Fl Float32 (true_divide (astype_float32_u8
                                  (x_train\<lparr>shape := [60000, 784]\<rparr>)) 255),
                          train_labels \<mapsto> Fl Float64 ys,
                          test_images \<mapsto> Fl Float32 (true_divide (astype_float32_u8
                                  (x_test\<lparr>shape := [10000, 784]\<rparr>)) 255),
                          test_labels \<mapsto> Fl Float64 yt]"
  using assms
  by (simp add: notebook_def init_def step_def read_var_def rebind_def with_network_def
        add_def compile_def Sequential_new_def dense_1_def dense_2_def
        reshape_def nd_size_def fun_upd_twist)

text \<open>
  Claim C3. The network the notebook builds consists of exactly two densely-connected
  layers applied in sequence: a layer of 512 units with ReLU activation on an input of
  \<open>28 * 28 = 784\<close> values, followed by a final layer of 10 units with softmax activation.
  No other layer is added: these are the layers of the model when the last cell has run.
\<close>

theorem network_two_dense_layers:
  assumes "exec_all E notebook init = Inr s"
  shows "\<exists>m. network s = Some m
           \<and> layers m = [\<lparr>units = 512, activation = relu, input_shape = Some [28 * 28]\<rparr>,
                          \<lparr>units = 10, activation = softmax, input_shape = None\<rparr>]
           \<and> (\<forall>ws x. forward 0 (layers m) ws x =
                  softmax_fn (map (\<lambda>j. (\<Sum>i<512. relu_fn (map (\<lambda>j. (\<Sum>i<length x. x ! i * kernel (ws 0) i j)
                                                             + bias (ws 0) j) [0..<512]) ! i
                                               * kernel (ws 1) i j) + bias (ws 1) j) [0..<10]))"
proof -
  from build_run[OF run_needs_keras[OF assms]] obtain s1
    where 1: "exec_all E (take 15 notebook) init = Inr s1"
      and 2: "map_option layers (network s1) = Some [dense_1, dense_2]"
    by blast
  have "exec_all E (take 15 notebook @ drop 15 notebook) init = Inr s" using assms by simp
  then have 3: "exec_all E (drop 15 notebook) s1 = Inr s"
    using 1 by (simp only: exec_all_append sum.case)
  have "\<forall>c \<in> set (drop 15 notebook). stage_of c \<noteq> Some Build"
    by (simp add: notebook_def)
  from exec_all_keeps_layers[OF 3 this] 2
  have "map_option layers (network s) = Some [dense_1, dense_2]" by simp
  then obtain m where m: "network s = Some m" "layers m = [dense_1, dense_2]" by auto
  have F: "forward 0 [dense_1, dense_2] ws x =
                softmax_fn (map (\<lambda>j. (\<Sum>i<512. relu_fn (map (\<lambda>j. (\<Sum>i<length x. x ! i * kernel (ws 0) i j)
                                                           + bias (ws 0) j) [0..<512]) ! i
                                             * kernel (ws 1) i j) + bias (ws 1) j) [0..<10])" for ws x
    by (simp add: dense_call_def dense_1_def dense_2_def relu_fn_def del: upt_Suc)
  have D: "[dense_1, dense_2] = [\<lparr>units = 512, activation = relu, input_shape = Some [28 * 28]\<rparr>,
                          \<lparr>units = 10, activation = softmax, input_shape = None\<rparr>]"
    by (simp add: dense_1_def dense_2_def)
  show ?thesis
    unfolding D[symmetric]
  proof (rule exI[of _ m], intro conjI allI)
    show "network s = Some m" by (rule m(1))
    show "layers m = [dense_1, dense_2]" by (rule m(2))
    show "forward 0 (layers m) ws x =
            softmax_fn (map (\<lambda>j. (\<Sum>i<512. relu_fn (map (\<lambda>j. (\<Sum>i<length x. x ! i * kernel (ws 0) i j)
                                                           + bias (ws 0) j) [0..<512]) ! i
                                             * kernel (ws 1) i j) + bias (ws 1) j) [0..<10])" for ws x
      unfolding m(2) by (rule F)
  qed
qed

theorem network_two_dense_layers_witness:
  "\<exists>s m. exec_all blank_mnist notebook init = Inr s \<and> network s = Some m
       \<and> layers m = [\<lparr>units = 512, activation = relu, input_shape = Some [28 * 28]\<rparr>,
                      \<lparr>units = 10, activation = softmax, input_shape = None\<rparr>]"
proof -
  from notebook_run[OF blank_mnist_like] obtain s where s: "exec_all blank_mnist notebook init = Inr s"
    by blast
  from network_two_dense_layers[OF s] s show ?thesis by blast
qed

lemmas run_simps = notebook_def before_def init_def step_def read_var_def rebind_def
  with_network_def checked_def check_data_def add_def compile_def Sequential_new_def
  dense_1_def dense_2_def reshape_def nd_size_def shape_true_divide shape_astype_float32_u8
  progress_def is_float_def

text \<open>
  Claim C5. The operations are performed one after the other in this order: load the
  dataset, build the two-layer network, compile it, reshape, normalize and encode the
  arrays, fit on the training data, evaluate on the test data, print the accuracy. Stopped
  before the first statement of a stage, the run has left in the namespace the effects of
  exactly the earlier stages: nothing before the load; the four arrays before the build;
  the two-layer model before \<^verbatim>\<open>compile\<close> (where \<^verbatim>\<open>fit\<close> would still raise \<^verbatim>\<open>RuntimeError\<close>);
  the compiled model before preprocessing; the float arrays before \<^verbatim>\<open>fit\<close>; the trained
  model before \<^verbatim>\<open>evaluate\<close>; the test metrics before \<^verbatim>\<open>print\<close>; and the printed accuracy
  at the end. In particular \<^verbatim>\<open>compile\<close> precedes \<^verbatim>\<open>fit\<close> and \<^verbatim>\<open>fit\<close> precedes \<^verbatim>\<open>evaluate\<close>.
\<close>

theorem workflow_effects_in_order:
  assumes "mnist_like E"
  shows "remdups_adj (List.map_filter stage_of notebook)
           = [Load, Build, Configure, Preprocess, Train, Test, Report]
       \<and> precedes (Compile ''rmsprop'' ''categorical_crossentropy'' [''accuracy''])
            (Fit train_images train_labels 5 128) notebook
       \<and> precedes (Fit train_images train_labels 5 128)
            (Evaluate test_images test_labels) notebook
       \<and> (\<exists>s. exec_all E (before Load) init = Inr s \<and> progress s = [])
       \<and> (\<exists>s. exec_all E (before Build) init = Inr s \<and> progress s = [Load])
       \<and> (\<exists>s. exec_all E (before Configure) init = Inr s \<and> progress s = [Load, Build]
              \<and> exec E (Fit train_images train_labels 5 128) s = Inl RuntimeError)
       \<and> (\<exists>s. exec_all E (before Preprocess) init = Inr s
              \<and> progress s = [Load, Build, Configure])
       \<and> (\<exists>s. exec_all E (before Train) init = Inr s
              \<and> progress s = [Load, Build, Configure, Preprocess])
       \<and> (\<exists>s. exec_all E (before Test) init = Inr s
              \<and> progress s = [Load, Build, Configure, Preprocess, Train])
       \<and> (\<exists>s. exec_all E (before Report) init = Inr s
              \<and> progress s = [Load, Build, Configure, Preprocess, Train, Test])
       \<and> (\<exists>s. exec_all E notebook init = Inr s
              \<and> progress s = [Load, Build, Configure, Preprocess, Train, Test, Report]
              \<and> stdout s = [snd (measured E)])"
proof -
  obtain x_train y_train x_test y_test
    where m: "mnist E = ((x_train, y_train), (x_test, y_test))"
    by (metis surj_pair)
  from assms m have k: "keras_installed E"
    and d: "digit_images 60000 x_train" "digit_labels 60000 y_train"
           "digit_images 10000 x_test" "digit_labels 10000 y_test"
    by (simp_all add: mnist_like_def)
  from pv_to_categorical_digits[OF d(2)] obtain ys
    where ys: "pv_to_categorical (U8 y_train) = Inr (Fl Float64 ys)" "shape ys = [60000, 10]"
    by auto
  from pv_to_categorical_digits[OF d(4)] obtain yt
    where yt: "pv_to_categorical (U8 y_test) = Inr (Fl Float64 yt)" "shape yt = [10000, 10]"
    by auto
  have sx: "shape x_train = [60000, 28, 28]" "shape x_test = [10000, 28, 28]"
    using d by (simp_all add: digit_images_def)
  note facts = k m ys yt sx
  have c0: "remdups_adj (List.map_filter stage_of notebook)
           = [Load, Build, Configure, Preprocess, Train, Test, Report]"
    by (simp add: notebook_def List.map_filter_simps)
  have c1: "precedes (Compile ''rmsprop'' ''categorical_crossentropy'' [''accuracy''])
            (Fit train_images train_labels 5 128) notebook"
    by (simp add: notebook_def)
  have c2: "precedes (Fit train_images train_labels 5 128)
            (Evaluate test_images test_labels) notebook"
    by (simp add: notebook_def)
  have p0: "\<exists>s. exec_all E (before Load) init = Inr s \<and> progress s = []"
    using facts by (simp add: run_simps)
  have p1: "\<exists>s. exec_all E (before Build) init = Inr s \<and> progress s = [Load]"
    using facts by (simp add: run_simps)
  have p2: "\<exists>s. exec_all E (before Configure) init = Inr s \<and> progress s = [Load, Build]
              \<and> exec E (Fit train_images train_labels 5 128) s = Inl RuntimeError"
    using facts by (simp add: run_simps)
  have p3: "\<exists>s. exec_all E (before Preprocess) init = Inr s
              \<and> progress s = [Load, Build, Configure]"
    using facts by (simp add: run_simps)
  have p4: "\<exists>s. exec_all E (before Train) init = Inr s
              \<and> progress s = [Load, Build, Configure, Preprocess]"
    using facts by (simp add: run_simps)
  have p5: "\<exists>s. exec_all E (before Test) init = Inr s
              \<and> progress s = [Load, Build, Configure, Preprocess, Train]"
    using facts by (simp add: run_simps)
  have p6: "\<exists>s. exec_all E (before Report) init = Inr s
              \<and> progress s = [Load, Build, Configure, Preprocess, Train, Test]"
    using facts by (simp add: run_simps)
  have p7: "\<exists>s. exec_all E notebook init = Inr s
              \<and> progress s = [Load, Build, Configure, Preprocess, Train, Test, Report]
              \<and> stdout s = [snd (measured E)]"
    using facts by (cases "measured E") (simp add: run_simps)
  show ?thesis
    by (intro conjI) (rule c0, rule c1, rule c2, rule p0, rule p1, rule p2, rule p3, rule p4,
        rule p5, rule p6, rule p7)
qed

theorem workflow_effects_in_order_witness:
  "mnist_like blank_mnist
   \<and> (\<exists>s. exec_all blank_mnist (before Train) init = Inr s
          \<and> progress s = [Load, Build, Configure, Preprocess])
   \<and> (\<exists>s. exec_all blank_mnist notebook init = Inr s
          \<and> progress s = [Load, Build, Configure, Preprocess, Train, Test, Report])"
proof -
  from workflow_effects_in_order[OF blank_mnist_like]
  have a: "\<exists>s. exec_all blank_mnist (before Train) init = Inr s
          \<and> progress s = [Load, Build, Configure, Preprocess]"
    and b: "\<exists>s. exec_all blank_mnist notebook init = Inr s
              \<and> progress s = [Load, Build, Configure, Preprocess, Train, Test, Report]
              \<and> stdout s = [snd (measured blank_mnist)]"
    by blast+
  from b have "\<exists>s. exec_all blank_mnist notebook init = Inr s
          \<and> progress s = [Load, Build, Configure, Preprocess, Train, Test, Report]"
    by blast
  with blank_mnist_like a show ?thesis by blast
qed





text \<open>
  Claim C1, for the array sizes the notebook hard-codes. The notebook reshapes
  \<^verbatim>\<open>train_images\<close> to \<^verbatim>\<open>(60000, 28 * 28)\<close> and \<^verbatim>\<open>test_images\<close> to \<^verbatim>\<open>(10000, 28 * 28)\<close>. For
  the loaded training array of shape \<open>(60000, 28, 28)\<close> and the loaded test array of shape
  \<open>(10000, 28, 28)\<close>, with \<^verbatim>\<open>uint8\<close> entries (the element type \<^typ>\<open>8 word\<close> holds exactly
  the values \<open>0 .. 255\<close>), the preprocessing step (that \<^verbatim>\<open>reshape\<close> followed by
  \<^verbatim>\<open>astype('float32') / 255\<close>) returns an array of shape \<open>(60000, 784)\<close>, respectively
  \<open>(10000, 784)\<close>, whose entries are the pixels divided by 255 in binary32 and all lie in
  the interval \<open>[0, 1]\<close>.
\<close>

theorem notebook_images_unit_interval:
  assumes "(v, n) = (train_images, 60000) \<or> (v, n) = (test_images, 10000)"
    and "arrays s v = Some (U8 a)" and "shape a = [n, 28, 28]" and "wf_array a"
  shows "Reshape v [n, 28 * 28] \<in> set notebook \<and> Astype_divide v \<in> set notebook
         \<and> (\<exists>s' b. exec_all E [Reshape v [n, 28 * 28], Astype_divide v] s = Inr s'
                \<and> arrays s' v = Some (Fl Float32 b)
                \<and> shape b = [n, 784] \<and> wf_array b
                \<and> flat b = map (\<lambda>w. float32 (of_nat (unat w) / 255)) (flat a)
                \<and> list_all (\<lambda>x. 0 \<le> x \<and> x \<le> 1) (flat b))"
proof -
  let ?b = "true_divide (astype_float32_u8 (a\<lparr>shape := [n, 784]\<rparr>)) 255"
  have nb: "Reshape v [n, 28 * 28] \<in> set notebook \<and> Astype_divide v \<in> set notebook"
    using assms(1) by (auto simp: notebook_def)
  have run: "\<exists>s'. exec_all E [Reshape v [n, 28 * 28], Astype_divide v] s = Inr s'
                \<and> arrays s' v = Some (Fl Float32 ?b)"
    using assms(2,3) by (simp add: step_def rebind_def reshape_def nd_size_def)
  have sb: "shape ?b = [n, 784]" by (simp add: shape_true_divide shape_astype_float32_u8)
  have wb: "wf_array ?b"
    using assms(3,4) by (simp add: wf_array_def nd_size_def true_divide_def astype_float32_u8_def)
  have fb: "flat ?b = map (\<lambda>w. float32 (of_nat (unat w) / 255)) (flat a)"
    using astype_divide_flat[of "a\<lparr>shape := [n, 784]\<rparr>"] by simp
  have ub: "list_all (\<lambda>x. 0 \<le> x \<and> x \<le> 1) (flat ?b)"
    using astype_divide_unit by (auto simp: list_all_iff)
  from run obtain s' where "exec_all E [Reshape v [n, 28 * 28], Astype_divide v] s = Inr s'"
    "arrays s' v = Some (Fl Float32 ?b)" by blast
  with sb wb fb ub have main: "\<exists>s' b. exec_all E [Reshape v [n, 28 * 28], Astype_divide v] s = Inr s'
                \<and> arrays s' v = Some (Fl Float32 b)
                \<and> shape b = [n, 784] \<and> wf_array b
                \<and> flat b = map (\<lambda>w. float32 (of_nat (unat w) / 255)) (flat a)
                \<and> list_all (\<lambda>x. 0 \<le> x \<and> x \<le> 1) (flat b)"
    by blast
  from nb have n1: "Reshape v [n, 28 * 28] \<in> set notebook" and n2: "Astype_divide v \<in> set notebook"
    by simp_all
  show ?thesis by (intro conjI) (rule n1, rule n2, rule main)
qed

theorem notebook_images_unit_interval_witness:
  "((train_images, 60000 :: nat) = (train_images, 60000) \<or> (train_images, 60000 :: nat) = (test_images, 10000))
   \<and> arrays (init\<lparr>arrays := [train_images \<mapsto> U8 \<lparr>shape = [60000, 28, 28], flat = replicate 47040000 255\<rparr>]\<rparr>)
        train_images = Some (U8 \<lparr>shape = [60000, 28, 28], flat = replicate 47040000 255\<rparr>)
   \<and> shape \<lparr>shape = [60000, 28, 28], flat = replicate 47040000 (255 :: 8 word)\<rparr> = [60000, 28, 28]
   \<and> wf_array \<lparr>shape = [60000, 28, 28], flat = replicate 47040000 (255 :: 8 word)\<rparr>
   \<and> (\<exists>s' b. exec_all blank_mnist [Reshape train_images [60000, 28 * 28], Astype_divide train_images]
                 (init\<lparr>arrays := [train_images \<mapsto> U8 \<lparr>shape = [60000, 28, 28], flat = replicate 47040000 255\<rparr>]\<rparr>)
               = Inr s'
           \<and> arrays s' train_images = Some (Fl Float32 b) \<and> shape b = [60000, 784]
           \<and> list_all (\<lambda>x. 0 \<le> x \<and> x \<le> 1) (flat b))"
proof -
  let ?a = "\<lparr>shape = [60000, 28, 28], flat = replicate 47040000 (255 :: 8 word)\<rparr>"
  let ?s = "init\<lparr>arrays := [train_images \<mapsto> U8 ?a]\<rparr>"
  have h1: "(train_images, 60000 :: nat) = (train_images, 60000) \<or> (train_images, 60000 :: nat) = (test_images, 10000)"
    by simp
  have h2: "arrays ?s train_images = Some (U8 ?a)" by simp
  have h3: "shape ?a = [60000, 28, 28]" by simp
  have h4: "wf_array ?a" by (simp add: wf_array_def nd_size_def)
  from notebook_images_unit_interval[OF h1 h2 h3 h4, of blank_mnist] h1 h2 h3 h4
  show ?thesis by blast
qed

text \<open>
  Claim C1 as stated (for every loaded image array of shape \<open>(count, 28, 28)\<close>) fails for
  another count: on an array of shape \<open>(1, 28, 28)\<close> the notebook's
  \<^verbatim>\<open>train_images.reshape((60000, 28 * 28))\<close> raises \<^verbatim>\<open>ValueError\<close>.
\<close>

theorem reshape_other_count_counterexample:
  "exec blank_mnist (Reshape train_images [60000, 28 * 28])
     (init\<lparr>arrays := [train_images \<mapsto> U8 \<lparr>shape = [1, 28, 28], flat = replicate 784 255\<rparr>]\<rparr>)
   = Inl ValueError"
  by (simp add: rebind_def reshape_def nd_size_def)

text \<open>
  Claim C8, for the transformations each array receives. Each of the four names is bound
  by the loader once and handed to the framework once (the training pair to \<^verbatim>\<open>fit\<close>, the
  test pair to \<^verbatim>\<open>evaluate\<close>); the image arrays are rebound twice before that (reshape,
  then \<^verbatim>\<open>astype('float32') / 255\<close>), the label arrays once (\<^verbatim>\<open>to_categorical\<close>); no
  statement transforms or consumes a name before it is loaded, and none loads or transforms
  it after it has been consumed.
\<close>

theorem array_lifecycle:
  "count_of loads v notebook = 1
   \<and> count_of transforms train_images notebook = 2
   \<and> count_of transforms test_images notebook = 2
   \<and> count_of transforms train_labels notebook = 1
   \<and> count_of transforms test_labels notebook = 1
   \<and> count_of consumes v notebook = 1
   \<and> filter (\<lambda>c. consumes c train_images \<or> consumes c train_labels) notebook
       = [Fit train_images train_labels 5 128]
   \<and> filter (\<lambda>c. consumes c test_images \<or> consumes c test_labels) notebook
       = [Evaluate test_images test_labels]
   \<and> list_all (\<lambda>c. \<not> transforms c v \<and> \<not> consumes c v) (takeWhile (\<lambda>c. \<not> loads c v) notebook)
   \<and> list_all (\<lambda>c. \<not> loads c v \<and> \<not> transforms c v) (after_use v notebook)"
  by (cases v) (simp_all add: count_of_def after_use_def notebook_def)

text \<open>
  Claim C8 as stated (each of the four arrays is transformed exactly twice) fails for the
  label arrays: \<^verbatim>\<open>train_labels\<close> is transformed by one statement only.
\<close>

theorem labels_transformed_once_counterexample:
  "count_of transforms train_labels notebook = 1"
  by (simp add: count_of_def notebook_def)

text \<open>
  Claim C10. Preprocessing preserves the number of samples and the pairing of images with
  labels. On a dataset of MNIST's shape, when \<^verbatim>\<open>fit\<close> is reached the training images have
  shape \<open>(60000, 784)\<close> and the training labels \<open>(60000, 10)\<close>, the test images
  \<open>(10000, 784)\<close> and the test labels \<open>(10000, 10)\<close>, the first axis being that of the loaded
  arrays; row \<open>i\<close> of the images is image \<open>i\<close> rescaled and row \<open>i\<close> of the labels is the
  encoding of label \<open>i\<close>; \<^verbatim>\<open>fit\<close> and \<^verbatim>\<open>evaluate\<close> accept the pairs, and the arrays are the
  same when the notebook ends.
\<close>

theorem preprocessing_keeps_samples_paired:
  assumes "mnist_like E"
  shows "\<exists>x_train y_train x_test y_test xs ys xt yt s0 s.
           mnist E = ((x_train, y_train), (x_test, y_test))
         \<and> exec_all E (takeWhile (\<lambda>c. stage_of c \<noteq> Some Train) notebook) init = Inr s0
         \<and> arrays s0 train_images = Some (Fl Float32 xs)
         \<and> arrays s0 train_labels = Some (Fl Float64 ys)
         \<and> arrays s0 test_images = Some (Fl Float32 xt)
         \<and> arrays s0 test_labels = Some (Fl Float64 yt)
         \<and> shape x_train = [60000, 28, 28] \<and> shape xs = [60000, 784]
         \<and> shape y_train = [60000] \<and> shape ys = [60000, 10]
         \<and> shape x_test = [10000, 28, 28] \<and> shape xt = [10000, 784]
         \<and> shape y_test = [10000] \<and> shape yt = [10000, 10]
         \<and> (\<forall>i<60000.
               (\<forall>r<28. \<forall>c<28. item xs [i, 28 * r + c]
                    = map_sum id (\<lambda>w. float32 (of_nat (unat w) / 255)) (item x_train [i, r, c]))
             \<and> (\<forall>j<10. item ys [i, j] = Inr (if j = unat (flat y_train ! i) then 1 else 0)))
         \<and> (\<forall>i<10000.
               (\<forall>r<28. \<forall>c<28. item xt [i, 28 * r + c]
                    = map_sum id (\<lambda>w. float32 (of_nat (unat w) / 255)) (item x_test [i, r, c]))
             \<and> (\<forall>j<10. item yt [i, j] = Inr (if j = unat (flat y_test ! i) then 1 else 0)))
         \<and> exec_all E notebook init = Inr s \<and> arrays s = arrays s0"
proof -
  from notebook_run[OF assms] obtain x_train y_train x_test y_test ys yt where
    m: "mnist E = ((x_train, y_train), (x_test, y_test))"
    and ys: "pv_to_categorical (U8 y_train) = Inr (Fl Float64 ys)"
    and yt: "pv_to_categorical (U8 y_test) = Inr (Fl Float64 yt)"
    and run: "exec_all E notebook init =
               Inr \<lparr>modules = [''keras.utils.to_categorical'', ''keras.layers'', ''keras.models'',
                               ''keras.datasets.mnist'', ''keras''],
                    arrays = [train_images \<mapsto> Fl Float32 (true_divide (astype_float32_u8
                                  (x_train\<lparr>shape := [60000, 784]\<rparr>)) 255),
                              train_labels \<mapsto> Fl Float64 ys,
                              test_images \<mapsto> Fl Float32 (true_divide (astype_float32_u8
                                  (x_test\<lparr>shape := [10000, 784]\<rparr>)) 255),
                              test_labels \<mapsto> Fl Float64 yt],
                    network = Some \<lparr>layers = [dense_1, dense_2],
                                    compiled = Some (''rmsprop'', ''categorical_crossentropy'', [''accuracy'']),
                                    epochs_fitted = 5\<rparr>,
                    test_metrics = Some (measured E),
                    stdout = [snd (measured E)],
                    executed = notebook\<rparr>" (is "_ = Inr ?s")
    by blast
  let ?xs = "true_divide (astype_float32_u8 (x_train\<lparr>shape := [60000, 784]\<rparr>)) 255"
  let ?xt = "true_divide (astype_float32_u8 (x_test\<lparr>shape := [10000, 784]\<rparr>)) 255"
  from assms m have k: "keras_installed E"
    and d: "digit_images 60000 x_train" "digit_labels 60000 y_train"
           "digit_images 10000 x_test" "digit_labels 10000 y_test"
    by (simp_all add: mnist_like_def)
  have sh: "shape x_train = [60000, 28, 28]" "shape x_test = [10000, 28, 28]"
           "shape y_train = [60000]" "shape y_test = [10000]"
    using d by (simp_all add: digit_images_def digit_labels_def)
  from pv_to_categorical_digits[OF d(2)] ys
  have cs: "shape ys = [60000, 10]"
    and lys: "\<forall>i<60000. \<forall>j<10. item ys [i, j] = Inr (if j = unat (flat y_train ! i) then 1 else 0)"
    by auto
  from pv_to_categorical_digits[OF d(4)] yt
  have ct: "shape yt = [10000, 10]"
    and lyt: "\<forall>i<10000. \<forall>j<10. item yt [i, j] = Inr (if j = unat (flat y_test ! i) then 1 else 0)"
    by auto
  from preprocessing_run[OF m k sh(1,2) ys yt] obtain s0 where
    s0: "exec_all E (takeWhile (\<lambda>c. stage_of c \<noteq> Some Train) notebook) init = Inr s0"
    and a0: "arrays s0 = arrays ?s"
    by auto
  have px: "\<forall>i<60000. \<forall>r<28. \<forall>c<28. item ?xs [i, 28 * r + c]
              = map_sum id (\<lambda>w. float32 (of_nat (unat w) / 255)) (item x_train [i, r, c])"
    using item_preprocessed[OF d(1)] by blast
  have pt: "\<forall>i<10000. \<forall>r<28. \<forall>c<28. item ?xt [i, 28 * r + c]
              = map_sum id (\<lambda>w. float32 (of_nat (unat w) / 255)) (item x_test [i, r, c])"
    using item_preprocessed[OF d(3)] by blast
  have a: "arrays s0 train_images = Some (Fl Float32 ?xs)" "arrays s0 train_labels = Some (Fl Float64 ys)"
          "arrays s0 test_images = Some (Fl Float32 ?xt)" "arrays s0 test_labels = Some (Fl Float64 yt)"
    by (simp_all add: a0)
  have shx: "shape ?xs = [60000, 784]" "shape ?xt = [10000, 784]"
    by (simp_all add: shape_true_divide shape_astype_float32_u8)
  have fin: "arrays ?s = arrays s0" by (simp add: a0)
  show ?thesis
    apply (rule exI[of _ x_train], rule exI[of _ y_train], rule exI[of _ x_test], rule exI[of _ y_test])
    apply (rule exI[of _ ?xs], rule exI[of _ ys], rule exI[of _ ?xt], rule exI[of _ yt])
    apply (rule exI[of _ s0], rule exI[of _ ?s])
    using m s0 a sh cs ct shx lys lyt px pt run fin
    apply (intro conjI)
    apply (assumption | blast)+
    done
qed

theorem preprocessing_keeps_samples_paired_witness:
  "mnist_like blank_mnist
   \<and> (\<exists>s xs ys. exec_all blank_mnist notebook init = Inr s
         \<and> arrays s train_images = Some (Fl Float32 xs) \<and> shape xs = [60000, 784]
         \<and> arrays s train_labels = Some (Fl Float64 ys) \<and> shape ys = [60000, 10])"
proof -
  have "\<exists>s xs ys. exec_all blank_mnist notebook init = Inr s
         \<and> arrays s train_images = Some (Fl Float32 xs) \<and> shape xs = [60000, 784]
         \<and> arrays s train_labels = Some (Fl Float64 ys) \<and> shape ys = [60000, 10]"
    using preprocessing_keeps_samples_paired[OF blank_mnist_like]
    apply (elim exE conjE)
    subgoal for x_train y_train x_test y_test xs ys xt yt s0 s
      apply (rule exI[of _ s], rule exI[of _ xs], rule exI[of _ ys])
      apply simp
      done
    done
  with blank_mnist_like show ?thesis by (rule conjI)
qed

end
